theory Spec2Isabelle
  imports Complex_Main "HOL-Library.Multiset"
begin

section \<open>Python values used by the quiz core\<close>

text \<open>
  A Python \<open>str\<close> is a sequence of Unicode code points, so a text is a list of
  natural numbers; \<open>chr\<close> and \<open>ord\<close> are then the identity and never wrap around.
  (Python's \<open>chr\<close> stops at code point 0x10FFFF; a list of options long enough to reach
  it is outside the model.) A one-character string, such as an option letter, is identified with its
  code point. Literals are written \<open>py ''Foo''\<close>.
\<close>

type_synonym codepoint = nat
type_synonym pystr = "codepoint list"

abbreviation py :: "string \<Rightarrow> pystr" where
  "py s \<equiv> map of_char s"

definition chr :: "nat \<Rightarrow> codepoint" where
  "chr n = n"

definition ord :: "codepoint \<Rightarrow> int" where
  "ord c = int c"

datatype error = TypeError | IndexError | ZeroDivisionError

text \<open>
  The \<open>answer\<close> field of a question comes from JSON: \<open>null\<close>, a text, a number,
  or a list of these. Floats, booleans and nested containers are not modelled.
\<close>

datatype pyval = PNone | PStr pystr | PInt int

datatype answer = Scalar pyval | Seq "pyval list"

subsection \<open>\<open>str()\<close>\<close>

fun digits :: "nat \<Rightarrow> pystr" where
  "digits n = (if n < 10 then [48 + n] else digits (n div 10) @ [48 + n mod 10])"

declare digits.simps [simp del]

definition str_int :: "int \<Rightarrow> pystr" where
  "str_int i = (if i < 0 then 45 # digits (nat (- i)) else digits (nat i))"

fun str :: "pyval \<Rightarrow> pystr" where
  "str PNone = py ''None''"
| "str (PStr s) = s"
| "str (PInt i) = str_int i"

subsection \<open>\<open>str.strip\<close>, \<open>str.split\<close>, \<open>str.rstrip\<close>, \<open>str.upper\<close>\<close>

text \<open>The code points for which Python's \<open>str.isspace\<close> holds.\<close>

definition isspace :: "codepoint \<Rightarrow> bool" where
  "isspace c \<longleftrightarrow>
     (9 \<le> c \<and> c \<le> 13) \<or> (28 \<le> c \<and> c \<le> 32) \<or> c = 133 \<or> c = 160 \<or> c = 5760 \<or>
     (8192 \<le> c \<and> c \<le> 8202) \<or> c = 8232 \<or> c = 8233 \<or> c = 8239 \<or> c = 8287 \<or> c = 12288"

definition strip :: "pystr \<Rightarrow> pystr" where
  "strip s = rev (dropWhile isspace (rev (dropWhile isspace s)))"

text \<open>
  \<open>s.split()\<close>: the maximal runs of non-whitespace characters. The second argument
  is the word being read.
\<close>

fun split_from :: "pystr \<Rightarrow> pystr \<Rightarrow> pystr list" where
  "split_from [] w = (if w = [] then [] else [w])"
| "split_from (c # cs) w =
     (if isspace c then (if w = [] then split_from cs [] else w # split_from cs [])
      else split_from cs (w @ [c]))"

definition split :: "pystr \<Rightarrow> pystr list" where
  "split s = split_from s []"

definition rstrip :: "pystr \<Rightarrow> pystr \<Rightarrow> pystr" where
  "rstrip chars s = rev (dropWhile (\<lambda>c. c \<in> set chars) (rev s))"

text \<open>
  \<open>str.upper\<close> on one character, for the characters whose upper case is an ASCII
  character: the letters \<open>a\<close> to \<open>z\<close>, the dotless i (U+0131, to \<open>I\<close>) and the
  long s (U+017F, to \<open>S\<close>). Every other code point is taken as its own upper case: the
  other case mappings of Unicode only matter to the letters of an option list with more
  than 63 options, and are outside the model.
\<close>

definition upper_chr :: "codepoint \<Rightarrow> codepoint" where
  "upper_chr c =
     (if 97 \<le> c \<and> c \<le> 122 then c - 32
      else if c = 305 then 73
      else if c = 383 then 83
      else c)"

definition upper :: "pystr \<Rightarrow> pystr" where
  "upper s = map upper_chr s"

fun join :: "pystr \<Rightarrow> pystr list \<Rightarrow> pystr" where
  "join sep [] = []"
| "join sep [x] = x"
| "join sep (x # y # ys) = x @ sep @ join sep (y # ys)"

text \<open>\<open>xs[i]\<close> on a list or a text: a negative index counts from the end.\<close>

definition getitem :: "'a list \<Rightarrow> int \<Rightarrow> error + 'a" where
  "getitem xs i =
     (if 0 \<le> i \<and> i < int (length xs) then Inr (xs ! nat i)
      else if i < 0 \<and> - int (length xs) \<le> i then Inr (xs ! nat (int (length xs) + i))
      else Inl IndexError)"

section \<open>Multiple-choice answers (quiz\_app.py, 167--246)\<close>

text \<open>\<open>_letters_map(n)\<close>: the dictionary \<open>{chr(65 + i): i for i in range(n)}\<close>.\<close>

definition letters_map :: "nat \<Rightarrow> (codepoint \<rightharpoonup> nat)" where
  "letters_map n = fold (\<lambda>i m. m(chr (65 + i) \<mapsto> i)) [0..<n] Map.empty"

text \<open>
  \<open>{str(opt).strip(): chr(65 + i) for i, opt in enumerate(options)}\<close>; a later option
  with the same stripped text replaces an earlier one. Options are texts, on which
  \<open>str\<close> is the identity.
\<close>

definition option_to_letter :: "pystr list \<Rightarrow> (pystr \<rightharpoonup> codepoint)" where
  "option_to_letter options =
     fold (\<lambda>(i, opt) m. m(strip opt \<mapsto> chr (65 + i))) (enumerate 0 options) Map.empty"

text \<open>
  One pass of the loop body of \<open>normalize_mc_answer_to_letters\<close> (lines 191--211) for
  the item \<open>raw\<close>; \<open>letters\<close> is the set collected so far. The two indexings
  \<open>s[0]\<close> and \<open>s.split()[0]\<close> can raise.
\<close>

definition normalize_item ::
  "(codepoint \<rightharpoonup> nat) \<Rightarrow> (pystr \<rightharpoonup> codepoint) \<Rightarrow> pyval \<Rightarrow> codepoint set \<Rightarrow> error + codepoint set"
where
  "normalize_item letter_to_index opt_to_letter raw letters =
     (let s = strip (str raw) in
      if s = [] then Inr letters
      else
        (case getitem s 0 of
           Inl e \<Rightarrow> Inl e
         | Inr c \<Rightarrow>
             (let first = upper_chr c in
              if letter_to_index first \<noteq> None then Inr (insert first letters)
              else
                (case opt_to_letter s of
                   Some L \<Rightarrow> Inr (insert L letters)
                 | None \<Rightarrow>
                     (case getitem (split s) 0 of
                        Inl e \<Rightarrow> Inl e
                      | Inr w \<Rightarrow>
                          (case upper (rstrip (py ''.:'') w) of
                             [t] \<Rightarrow>
                               (if letter_to_index t \<noteq> None then Inr (insert t letters)
                                else Inr letters)
                           | _ \<Rightarrow> Inr letters))))))"

fun normalize_loop ::
  "(codepoint \<rightharpoonup> nat) \<Rightarrow> (pystr \<rightharpoonup> codepoint) \<Rightarrow> pyval list \<Rightarrow> codepoint set \<Rightarrow> error + codepoint set"
where
  "normalize_loop letter_to_index opt_to_letter [] letters = Inr letters"
| "normalize_loop letter_to_index opt_to_letter (raw # items) letters =
     (case normalize_item letter_to_index opt_to_letter raw letters of
        Inl e \<Rightarrow> Inl e
      | Inr letters' \<Rightarrow> normalize_loop letter_to_index opt_to_letter items letters')"

definition normalize_mc_answer_to_letters :: "pystr list \<Rightarrow> answer \<Rightarrow> error + codepoint set" where
  "normalize_mc_answer_to_letters options answer =
     (case answer of
        Scalar PNone \<Rightarrow> Inr {}
      | Scalar v \<Rightarrow>
          normalize_loop (letters_map (length options)) (option_to_letter options) [v] {}
      | Seq items \<Rightarrow>
          normalize_loop (letters_map (length options)) (option_to_letter options) items {})"

text \<open>
  The letters that one item adds when the loop body runs on it with nothing collected
  yet (an auxiliary notion, used to state what the loop computes).
\<close>

definition item_letters :: "(codepoint \<rightharpoonup> nat) \<Rightarrow> (pystr \<rightharpoonup> codepoint) \<Rightarrow> pyval \<Rightarrow> codepoint set" where
  "item_letters letter_to_index opt_to_letter raw =
     (case normalize_item letter_to_index opt_to_letter raw {} of Inl e \<Rightarrow> {} | Inr A \<Rightarrow> A)"

text \<open>\<open>format_correct_answer\<close> (lines 216--227).\<close>

definition format_part :: "pystr list \<Rightarrow> codepoint \<Rightarrow> pystr" where
  "format_part options L =
     (let idx = ord L - 65 in
      if 0 \<le> idx \<and> idx < int (length options) then [L] @ py ''. '' @ options ! nat idx
      else [L])"

definition format_correct_answer :: "pystr list \<Rightarrow> codepoint set \<Rightarrow> pystr" where
  "format_correct_answer options letters_set =
     (if letters_set = {} then py ''Unknown''
      else join (py '', '') (map (format_part options) (sorted_list_of_set letters_set)))"

text \<open>
  \<open>{options[ord(L) - 65] for L in selected_letters}\<close> (line 240): the comprehension
  raises \<open>IndexError\<close> as soon as one letter has no option.
\<close>

definition selected_texts :: "pystr list \<Rightarrow> codepoint set \<Rightarrow> error + pystr set" where
  "selected_texts options selected_letters =
     (if \<exists>L\<in>selected_letters. isl (getitem options (ord L - 65)) then Inl IndexError
      else Inr ((\<lambda>L. projr (getitem options (ord L - 65))) ` selected_letters))"

text \<open>\<open>", ".join(xs)\<close> raises \<open>TypeError\<close> on an item that is not a text.\<close>

fun texts_of :: "pyval list \<Rightarrow> error + pystr list" where
  "texts_of [] = Inr []"
| "texts_of (PStr s # vs) = (case texts_of vs of Inl e \<Rightarrow> Inl e | Inr ss \<Rightarrow> Inr (s # ss))"
| "texts_of (v # vs) = Inl TypeError"

definition join_values :: "pystr \<Rightarrow> pyval list \<Rightarrow> error + pystr" where
  "join_values sep vs = (case texts_of vs of Inl e \<Rightarrow> Inl e | Inr ss \<Rightarrow> Inr (join sep ss))"

text \<open>
  \<open>is_mc_selection_correct\<close> (lines 230--246). Python does not fix the order in which a
  \<open>set\<close> is iterated: \<open>set_order xs\<close> stands for the elements of \<open>set(xs)\<close> in the
  order the interpreter iterates them (a parameter; \<open>admissible_order\<close> says what
  is known of it). The set \<open>{correct}\<close> of a scalar has one element.
\<close>

type_synonym set_order = "pyval list \<Rightarrow> pyval list"

definition admissible_order :: "set_order \<Rightarrow> bool" where
  "admissible_order set_order \<longleftrightarrow>
     (\<forall>xs. distinct (set_order xs) \<and> set (set_order xs) = set xs)"

definition correct_set_of :: "set_order \<Rightarrow> answer \<Rightarrow> pyval list" where
  "correct_set_of set_order correct =
     (case correct of Seq xs \<Rightarrow> set_order xs | Scalar v \<Rightarrow> [v])"

definition is_mc_selection_correct ::
  "set_order \<Rightarrow> pystr list \<Rightarrow> answer \<Rightarrow> codepoint set \<Rightarrow> error + (bool \<times> pystr)"
where
  "is_mc_selection_correct set_order options correct selected_letters =
     (case normalize_mc_answer_to_letters options correct of
        Inl e \<Rightarrow> Inl e
      | Inr correct_letters \<Rightarrow>
          (if correct_letters \<noteq> {}
           then Inr ((selected_letters = correct_letters),
                     format_correct_answer options correct_letters)
           else
             (case selected_texts options selected_letters of
                Inl e \<Rightarrow> Inl e
              | Inr texts \<Rightarrow>
                  (let correct_set = correct_set_of set_order correct;
                       is_correct = (PStr ` texts = set correct_set)
                   in (case normalize_mc_answer_to_letters options (Seq correct_set) of
                         Inl e \<Rightarrow> Inl e
                       | Inr tmp_letters \<Rightarrow>
                           (if tmp_letters \<noteq> {}
                            then Inr (is_correct, format_correct_answer options tmp_letters)
                            else
                              (case join_values (py '', '') correct_set of
                                 Inl e \<Rightarrow> Inl e
                               | Inr correct_display \<Rightarrow> Inr (is_correct, correct_display))))))))"


section \<open>Questions, persisted lists and the session state (quiz\_app.py, 29--119)\<close>

text \<open>
  A question record of the bank. The keys \<open>question\<close>, \<open>options\<close> and \<open>answer\<close>
  are read with \<open>question_data[...]\<close> and are taken to be present; \<open>type\<close>,
  \<open>explanation\<close> and \<open>image\<close> are read with \<open>.get\<close>. Two records are equal when
  all their fields are, as Python dictionaries are.
\<close>

record question =
  q_question :: pystr
  q_options :: "pystr list"
  q_answer :: answer
  q_type :: "pystr option"
  q_explanation :: "pystr option"
  q_image :: "pystr option"

text \<open>An entry of the score history (its \<open>date\<close>, a clock reading, is left out).\<close>

record score_entry =
  h_correct :: nat
  h_total :: nat
  h_score :: real

text \<open>The top-level windows the program opens, with what they show.\<close>

datatype window =
    QuestionWindow nat question
  | ResultWindow pystr
  | EndWindow nat nat real

text \<open>
  The module's global variables, the three JSON files (\<open>None\<close>: the file does not
  exist) and the windows opened so far, in the order of their creation.
\<close>

record quiz_state =
  questions_asked :: "question list"
  correct_answers :: nat
  question_queue :: "question list"
  current_question :: nat
  question_memory :: "question list"
  asked_file :: "question list option"
  wrong_file :: "question list option"
  score_file :: "score_entry list option"
  opened :: "window list"

definition load_asked_questions :: "quiz_state \<Rightarrow> question list" where
  "load_asked_questions st = (case asked_file st of Some qs \<Rightarrow> qs | None \<Rightarrow> [])"

definition save_asked_questions :: "question list \<Rightarrow> quiz_state \<Rightarrow> quiz_state" where
  "save_asked_questions qs st = st\<lparr>asked_file := Some qs\<rparr>"

definition reset_question_memory :: "quiz_state \<Rightarrow> quiz_state" where
  "reset_question_memory st = st\<lparr>asked_file := None\<rparr>"

definition load_wrong_questions :: "quiz_state \<Rightarrow> question list" where
  "load_wrong_questions st = (case wrong_file st of Some qs \<Rightarrow> qs | None \<Rightarrow> [])"

definition save_wrong_questions :: "question list \<Rightarrow> quiz_state \<Rightarrow> quiz_state" where
  "save_wrong_questions qs st = st\<lparr>wrong_file := Some qs\<rparr>"

definition reset_wrong_questions :: "quiz_state \<Rightarrow> quiz_state" where
  "reset_wrong_questions st = st\<lparr>wrong_file := None\<rparr>"

definition load_score_history :: "quiz_state \<Rightarrow> score_entry list" where
  "load_score_history st = (case score_file st of Some h \<Rightarrow> h | None \<Rightarrow> [])"

definition save_score_history :: "score_entry list \<Rightarrow> quiz_state \<Rightarrow> quiz_state" where
  "save_score_history h st = st\<lparr>score_file := Some h\<rparr>"

definition record_score :: "real \<Rightarrow> nat \<Rightarrow> nat \<Rightarrow> quiz_state \<Rightarrow> quiz_state" where
  "record_score score correct total_answered st =
     save_score_history
       (load_score_history st @
          [\<lparr>h_correct = correct, h_total = total_answered, h_score = score\<rparr>]) st"

text \<open>\<open>mark_question_correct\<close> (lines 107--119); \<open>list.remove\<close> drops the first occurrence.\<close>

definition mark_question_correct :: "question \<Rightarrow> quiz_state \<Rightarrow> quiz_state" where
  "mark_question_correct question_data st =
     (let st1 =
        (if question_data \<notin> set (question_memory st)
         then save_asked_questions (question_memory st @ [question_data])
                (st\<lparr>question_memory := question_memory st @ [question_data]\<rparr>)
         else st);
          wrong_qs = load_wrong_questions st1
      in if question_data \<in> set wrong_qs
         then save_wrong_questions (remove1 question_data wrong_qs) st1
         else st1)"

text \<open>
  The statements of the \<open>else\<close> branch of both \<open>submit\<close> handlers (lines 315--318 and
  381--384).
\<close>

definition record_wrong_question :: "question \<Rightarrow> quiz_state \<Rightarrow> quiz_state" where
  "record_wrong_question question_data st =
     (let wrong_qs = load_wrong_questions st
      in if question_data \<notin> set wrong_qs
         then save_wrong_questions (wrong_qs @ [question_data]) st
         else st)"

text \<open>
  What both \<open>submit\<close> handlers do to the score and the persisted lists once
  \<open>is_correct\<close> is known (lines 309--318 and 373--384).
\<close>

definition record_answer :: "question \<Rightarrow> bool \<Rightarrow> quiz_state \<Rightarrow> quiz_state" where
  "record_answer question_data is_correct st =
     (if is_correct
      then mark_question_correct question_data (st\<lparr>correct_answers := correct_answers st + 1\<rparr>)
      else record_wrong_question question_data st)"

section \<open>The session (quiz\_app.py, 251--495)\<close>

definition show_result :: "pystr \<Rightarrow> quiz_state \<Rightarrow> quiz_state" where
  "show_result message st = st\<lparr>opened := opened st @ [ResultWindow message]\<rparr>"

text \<open>\<open>a / b\<close> on Python numbers; the quotient is taken as a real number.\<close>

definition truediv :: "nat \<Rightarrow> nat \<Rightarrow> error + real" where
  "truediv a b = (if b = 0 then Inl ZeroDivisionError else Inr (real a / real b))"

text \<open>\<open>end_quiz\<close> (lines 407--456); a result image that fails to load is caught there.\<close>

definition end_quiz :: "quiz_state \<Rightarrow> error + quiz_state" where
  "end_quiz st =
     (let total_answered = (if current_question st > 0 then current_question st else 1)
      in case truediv (correct_answers st) total_answered of
           Inl e \<Rightarrow> Inl e
         | Inr ratio \<Rightarrow>
             (let score = ratio * 100;
                  st1 = record_score score (correct_answers st) total_answered st
              in Inr (st1\<lparr>opened := opened st1 @ [EndWindow (correct_answers st) total_answered score]\<rparr>)))"

definition ask_multiple_choice :: "question \<Rightarrow> nat \<Rightarrow> quiz_state \<Rightarrow> quiz_state" where
  "ask_multiple_choice question_data question_number st =
     st\<lparr>opened := opened st @ [QuestionWindow question_number question_data]\<rparr>"

definition ask_drag_and_drop :: "question \<Rightarrow> nat \<Rightarrow> quiz_state \<Rightarrow> quiz_state" where
  "ask_drag_and_drop question_data question_number st =
     st\<lparr>opened := opened st @ [QuestionWindow question_number question_data]\<rparr>"

text \<open>\<open>ask_question\<close> (lines 251--264); a question of any other type opens no window.\<close>

definition ask_question :: "quiz_state \<Rightarrow> error + quiz_state" where
  "ask_question st =
     (if current_question st \<ge> length (question_queue st) then end_quiz st
      else
        (let question_data = question_queue st ! current_question st;
             question_number = current_question st + 1;
             question_type = (case q_type question_data of
                                Some t \<Rightarrow> t | None \<Rightarrow> py ''multiple_choice'')
         in if question_type = py ''multiple_choice''
            then Inr (ask_multiple_choice question_data question_number st)
            else if question_type = py ''drag_and_drop''
            then Inr (ask_drag_and_drop question_data question_number st)
            else Inr st))"

definition next_question :: "quiz_state \<Rightarrow> error + quiz_state" where
  "next_question st = ask_question (st\<lparr>current_question := current_question st + 1\<rparr>)"

text \<open>
  The \<open>submit\<close> handler of a multiple-choice window (lines 304--319); \<open>user_vars\<close> are
  the check boxes, one per option, \<open>True\<close> when ticked.
\<close>

definition selected_letters_of :: "bool list \<Rightarrow> codepoint set" where
  "selected_letters_of user_vars = set [chr (65 + i). (i, var) \<leftarrow> enumerate 0 user_vars, var]"

definition explanation_of :: "question \<Rightarrow> pystr \<Rightarrow> pystr" where
  "explanation_of question_data dflt =
     (case q_explanation question_data of Some e \<Rightarrow> e | None \<Rightarrow> dflt)"

definition submit_multiple_choice ::
  "set_order \<Rightarrow> question \<Rightarrow> bool list \<Rightarrow> quiz_state \<Rightarrow> error + quiz_state"
where
  "submit_multiple_choice set_order question_data user_vars st =
     (let explanation = explanation_of question_data (py ''No explanation available.'')
      in case is_mc_selection_correct set_order (q_options question_data) (q_answer question_data)
                (selected_letters_of user_vars) of
           Inl e \<Rightarrow> Inl e
         | Inr (is_correct, correct_display) \<Rightarrow>
             (if is_correct
              then Inr (show_result (py ''Correct!'' @ [10] @ py ''Explanation: '' @ explanation)
                          (record_answer question_data True st))
              else Inr (show_result
                          (py ''Wrong! Correct answer: '' @ correct_display @ [10] @
                           py ''Explanation: '' @ explanation)
                          (record_answer question_data False st))))"

text \<open>
  The \<open>submit\<close> handler of a drag-and-drop window (lines 364--385); \<open>selected\<close> are the
  values of the drop-down menus. A list of texts equals the expected list when the two
  agree item by item. The expected sequence is joined only for the message of a wrong
  answer.
\<close>

definition expected_of :: "answer \<Rightarrow> pyval list" where
  "expected_of correct = (case correct of Seq xs \<Rightarrow> xs | Scalar v \<Rightarrow> [v])"

definition submit_drag_and_drop ::
  "question \<Rightarrow> pystr list \<Rightarrow> quiz_state \<Rightarrow> error + quiz_state"
where
  "submit_drag_and_drop question_data selected st =
     (let explanation = explanation_of question_data [];
          expected = expected_of (q_answer question_data);
          is_correct = (map PStr selected = expected)
      in if is_correct
         then Inr (show_result (py ''Correct!'' @ [10] @ py ''Explanation: '' @ explanation)
                     (record_answer question_data True st))
         else
           (case join_values (py '', '') expected of
              Inl e \<Rightarrow> Inl e
            | Inr sequence \<Rightarrow>
                Inr (show_result
                       (py ''Wrong!'' @ [10] @ py ''Correct sequence: '' @ sequence @ [10] @
                        py ''Explanation: '' @ explanation)
                       (record_answer question_data False st))))"

text \<open>\<open>xs[:k]\<close>: a negative \<open>k\<close> counts from the end.\<close>

definition slice_to :: "'a list \<Rightarrow> int \<Rightarrow> 'a list" where
  "slice_to xs k = (if k < 0 then take (nat (int (length xs) + k)) xs else take (nat k) xs)"

text \<open>
  \<open>run_quiz\<close> (lines 468--495). The answers to the two yes/no prompts and the outcome of
  \<open>random.shuffle\<close> are parameters; \<open>topics\<close> is the bank, the topics in the order of
  the file.
\<close>

type_synonym shuffle = "question list \<Rightarrow> question list"

definition is_shuffle :: "shuffle \<Rightarrow> bool" where
  "is_shuffle shuffle \<longleftrightarrow> (\<forall>xs. mset (shuffle xs) = mset xs)"

definition build_queue ::
  "shuffle \<Rightarrow> int \<Rightarrow> (pystr \<times> question list) list \<Rightarrow> question list \<Rightarrow> question list \<Rightarrow> question list"
where
  "build_queue shuffle question_count topics memory wrong_questions0 =
     (let all_questions = concat (map snd topics);
          wrong_questions = [q \<leftarrow> wrong_questions0. q \<in> set all_questions];
          remaining_questions =
            shuffle [q \<leftarrow> all_questions. q \<notin> set memory \<and> q \<notin> set wrong_questions];
          combined = wrong_questions @ remaining_questions;
          count = min question_count (int (length combined))
      in slice_to combined count)"

definition run_quiz ::
  "bool \<Rightarrow> bool \<Rightarrow> shuffle \<Rightarrow> int \<Rightarrow> (pystr \<times> question list) list \<Rightarrow> quiz_state \<Rightarrow> error + quiz_state"
where
  "run_quiz reset_memory reset_missed shuffle question_count topics st =
     (let st1 = st\<lparr>questions_asked := [], correct_answers := 0, current_question := 0\<rparr>;
          st2 = (if reset_memory then (reset_question_memory st1)\<lparr>question_memory := []\<rparr>
                 else st1\<lparr>question_memory := load_asked_questions st1\<rparr>);
          st3 = (if reset_missed then reset_wrong_questions st2 else st2);
          wrong_questions = (if reset_missed then [] else load_wrong_questions st2);
          queue = build_queue shuffle question_count topics (question_memory st3) wrong_questions
      in ask_question (st3\<lparr>question_queue := queue, questions_asked := queue\<rparr>))"

text \<open>
  The globals as the module initialises them (lines 74--78), with none of the JSON
  files on disk and no window opened.
\<close>

definition initial_state :: quiz_state where
  "initial_state =
     \<lparr>questions_asked = [], correct_answers = 0, question_queue = [], current_question = 0,
      question_memory = [], asked_file = None, wrong_file = None, score_file = None,
      opened = []\<rparr>"

text \<open>A multiple-choice question with the given text, for the examples.\<close>

definition sample_question :: "string \<Rightarrow> question" where
  "sample_question t =
     \<lparr>q_question = py t, q_options = [py ''Foo'', py ''Bar''],
      q_answer = Scalar (PStr (py ''A'')), q_type = None, q_explanation = None,
      q_image = None\<rparr>"

section \<open>Normalisation of answers\<close>

lemma letters_map_dom: "letters_map n c \<noteq> None \<longleftrightarrow> 65 \<le> c \<and> c < 65 + n"
  by (induction n) (auto simp: letters_map_def chr_def)

lemma letters_map_Some: "(\<exists>i. letters_map n c = Some i) \<longleftrightarrow> 65 \<le> c \<and> c < 65 + n"
  using letters_map_dom [of n c] by auto

lemma option_to_letter_fold:
  "fold (\<lambda>(i, opt) m. m(strip opt \<mapsto> chr (65 + i))) (enumerate k opts) m0 s = Some L \<Longrightarrow>
     m0 s = Some L \<or> (65 + k \<le> L \<and> L < 65 + k + length opts)"
proof (induction opts arbitrary: k m0)
  case Nil
  then show ?case by simp
next
  case (Cons opt opts)
  from Cons.prems
  have "fold (\<lambda>(i, opt) m. m(strip opt \<mapsto> chr (65 + i))) (enumerate (Suc k) opts)
          (m0(strip opt \<mapsto> chr (65 + k))) s = Some L"
    by (simp del: fun_upd_apply)
  from Cons.IH [OF this] show ?case
    by (auto simp: chr_def split: if_splits)
qed

lemma option_to_letter_range:
  "option_to_letter options s = Some L \<Longrightarrow> 65 \<le> L \<and> L < 65 + length options"
  using option_to_letter_fold [of 0 options Map.empty s L]
  by (simp add: option_to_letter_def)

lemma split_from_nonempty:
  "w \<noteq> [] \<or> (\<exists>c\<in>set s. \<not> isspace c) \<Longrightarrow> split_from s w \<noteq> []"
  by (induction s arbitrary: w) auto

lemma strip_has_char: "strip s \<noteq> [] \<Longrightarrow> \<exists>c\<in>set (strip s). \<not> isspace c"
proof -
  assume ne: "strip s \<noteq> []"
  let ?u = "dropWhile isspace (rev (dropWhile isspace s))"
  from ne have u: "?u \<noteq> []" by (simp add: strip_def)
  then have "\<not> isspace (hd ?u)" by (rule hd_dropWhile)
  moreover from u have "hd ?u \<in> set (strip s)" by (simp add: strip_def)
  ultimately show ?thesis by blast
qed

lemma split_strip_nonempty: "strip s \<noteq> [] \<Longrightarrow> split (strip s) \<noteq> []"
  unfolding split_def by (rule split_from_nonempty) (simp add: strip_has_char)

lemma getitem_zero: "xs \<noteq> [] \<Longrightarrow> getitem xs 0 = Inr (hd xs)"
  by (cases xs) (simp_all add: getitem_def)

lemma normalize_item_union:
  "normalize_item lti otl raw letters = Inr (letters \<union> item_letters lti otl raw)"
  by (auto simp: normalize_item_def item_letters_def Let_def getitem_zero split_strip_nonempty
      split: option.splits list.splits)

lemma normalize_loop_union:
  "normalize_loop lti otl items letters = Inr (letters \<union> (\<Union>raw\<in>set items. item_letters lti otl raw))"
  by (induction items arbitrary: letters) (auto simp: normalize_item_union)

lemma item_letters_range:
  "L \<in> item_letters (letters_map (length options)) (option_to_letter options) raw \<Longrightarrow>
     65 \<le> L \<and> L < 65 + length options"
  using letters_map_dom [of "length options"]
  by (auto simp: normalize_item_def item_letters_def Let_def getitem_zero split_strip_nonempty
      dest: option_to_letter_range
      split: option.splits list.splits if_splits)


lemma normalize_eq:
  "normalize_mc_answer_to_letters options answer =
     Inr (case answer of
            Scalar PNone \<Rightarrow> {}
          | Scalar v \<Rightarrow> item_letters (letters_map (length options)) (option_to_letter options) v
          | Seq items \<Rightarrow>
              (\<Union>raw\<in>set items. item_letters (letters_map (length options)) (option_to_letter options) raw))"
  by (simp add: normalize_mc_answer_to_letters_def normalize_loop_union normalize_item_union
      split: answer.splits pyval.splits)

lemma normalize_total: "\<exists>A. normalize_mc_answer_to_letters options answer = Inr A"
  by (simp add: normalize_eq)

lemma normalize_range:
  assumes "normalize_mc_answer_to_letters options answer = Inr A"
  shows "A \<subseteq> {65..<65 + length options}"
  using assms item_letters_range [of _ options]
  by (fastforce simp: normalize_eq split: answer.splits pyval.splits)

lemma format_part_valid:
  "65 \<le> L \<Longrightarrow> L < 65 + length options \<Longrightarrow>
     format_part options L = [L] @ py ''. '' @ options ! (L - 65)"
  by (simp add: format_part_def ord_def Let_def nat_diff_distrib' flip: of_nat_diff)

lemmas py_eval =
  normalize_mc_answer_to_letters_def normalize_item_def letters_map_dom letters_map_Some
  option_to_letter_def
  strip_def isspace_def getitem_def upper_chr_def upper_def chr_def ord_def split_def rstrip_def
  Let_def format_correct_answer_def format_part_def selected_texts_def join_values_def
  correct_set_of_def str_int_def


lemma selected_texts_valid:
  assumes "selected_letters \<subseteq> {65..<65 + length options}"
  shows "selected_texts options selected_letters =
           Inr ((\<lambda>L. options ! (L - 65)) ` selected_letters)"
proof -
  have ok: "getitem options (ord L - 65) = Inr (options ! (L - 65))" if "L \<in> selected_letters" for L
  proof -
    from that assms have "65 \<le> L" "L < 65 + length options" by auto
    then show ?thesis
      by (simp add: getitem_def ord_def nat_diff_distrib' flip: of_nat_diff)
  qed
  then have "\<not> (\<exists>L\<in>selected_letters. isl (getitem options (ord L - 65)))" by auto
  moreover have "(\<lambda>L. projr (getitem options (ord L - 65))) ` selected_letters =
                 (\<lambda>L. options ! (L - 65)) ` selected_letters"
    by (rule image_cong) (simp_all add: ok)
  ultimately show ?thesis
    unfolding selected_texts_def by (simp only: if_False)
qed

lemma join_values_texts: "texts_of vs = Inr ss \<Longrightarrow> join_values sep vs = Inr (join sep ss)"
  by (simp add: join_values_def)

lemma texts_of_map: "texts_of vs = Inr ss \<Longrightarrow> vs = map PStr ss"
  by (induction vs arbitrary: ss rule: texts_of.induct) (auto split: sum.splits)

lemma texts_of_PStr: "texts_of (map PStr ss) = Inr ss"
  by (induction ss) simp_all

text \<open>
  For an answer other than \<open>null\<close>, the second normalisation of the fallback sees
  the same items as the first, whatever the order of the set.
\<close>

lemma second_normalization_same:
  assumes "admissible_order set_order" and "correct \<noteq> Scalar PNone"
  shows "normalize_mc_answer_to_letters options (Seq (correct_set_of set_order correct)) =
         normalize_mc_answer_to_letters options correct"
proof (cases correct)
  case (Scalar v)
  with assms(2) have "v \<noteq> PNone" by simp
  with Scalar show ?thesis
    by (cases v) (simp_all add: normalize_eq correct_set_of_def)
next
  case (Seq xs)
  from assms(1) have "set (set_order xs) = set xs"
    by (simp add: admissible_order_def)
  with Seq show ?thesis
    by (simp add: normalize_eq correct_set_of_def)
qed

section \<open>The matcher for multiple-choice questions\<close>

text \<open>
  Claim C1. Whenever the correct-answer field normalises to a non-empty letter set,
  \<open>is_mc_selection_correct\<close> returns, its verdict is \<open>True\<close> exactly when the
  selected letters are that set, and its display string lists, in ascending order of the
  letters and joined by \<open>", "\<close>, each correct letter followed by \<open>". "\<close> and the text of
  the option with that letter.
\<close>

theorem mc_primary_path:
  assumes norm: "normalize_mc_answer_to_letters options correct = Inr correct_letters"
    and ne: "correct_letters \<noteq> {}"
  shows "is_mc_selection_correct set_order options correct selected_letters =
           Inr (selected_letters = correct_letters,
                join (py '', '')
                  (map (\<lambda>L. [L] @ py ''. '' @ options ! (L - 65))
                     (sorted_list_of_set correct_letters)))"
proof -
  from norm have sub: "correct_letters \<subseteq> {65..<65 + length options}"
    by (rule normalize_range)
  then have fin: "finite correct_letters"
    by (rule finite_subset) simp
  have "map (format_part options) (sorted_list_of_set correct_letters) =
        map (\<lambda>L. [L] @ py ''. '' @ options ! (L - 65)) (sorted_list_of_set correct_letters)"
  proof (rule map_cong [OF refl])
    fix L assume "L \<in> set (sorted_list_of_set correct_letters)"
    with fin sub have "65 \<le> L" and "L < 65 + length options" by auto
    then show "format_part options L = [L] @ py ''. '' @ options ! (L - 65)"
      by (rule format_part_valid)
  qed
  then have "format_correct_answer options correct_letters =
             join (py '', '')
               (map (\<lambda>L. [L] @ py ''. '' @ options ! (L - 65)) (sorted_list_of_set correct_letters))"
    using ne unfolding format_correct_answer_def by (simp only: if_False)
  with norm ne show ?thesis
    by (simp add: is_mc_selection_correct_def)
qed


theorem mc_primary_path_witness:
  "normalize_mc_answer_to_letters [py ''Foo'', py ''Bar'', py ''Baz''] (Scalar (PStr (py ''B''))) = Inr {66}
   \<and> is_mc_selection_correct remdups [py ''Foo'', py ''Bar'', py ''Baz''] (Scalar (PStr (py ''B''))) {chr 66}
       = Inr (True, py ''B. Bar'')
   \<and> is_mc_selection_correct remdups [py ''Foo'', py ''Bar'', py ''Baz''] (Scalar (PStr (py ''B''))) {chr 65}
       = Inr (False, py ''B. Bar'')"
proof -
  have n: "normalize_mc_answer_to_letters [py ''Foo'', py ''Bar'', py ''Baz''] (Scalar (PStr (py ''B'')))
             = Inr {66}"
    by (simp add: py_eval)
  have ne: "{66::nat} \<noteq> {}" by simp
  show ?thesis
    using n mc_primary_path [OF n ne, of remdups "{chr 66}"] mc_primary_path [OF n ne, of remdups "{chr 65}"]
    by (simp add: chr_def)
qed


text \<open>
  Claim C3 asks, for every correct-answer field that normalises to the empty set, for a
  verdict by comparison of texts and a display string. With \<open>null\<close> as the answer the
  normalisation is empty, neither letter rule nor option text matches \<open>"None"\<close>, and the
  fallback ends in \<open>", ".join({None})\<close>, which raises \<open>TypeError\<close>: no verdict and no
  display string are returned.
\<close>

theorem mc_fallback_null_raises:
  "normalize_mc_answer_to_letters [py ''Yes'', py ''No''] (Scalar PNone) = Inr {}
   \<and> is_mc_selection_correct set_order [py ''Yes'', py ''No''] (Scalar PNone) {chr 66} = Inl TypeError"
  by (simp add: is_mc_selection_correct_def py_eval)

text \<open>
  Claim C4 expects the display string \<open>"Unknown"\<close> when both normalisations are empty.
  For the answer \<open>"zzz"\<close> over the options \<open>Foo\<close>, \<open>Bar\<close> both are empty and the
  display string is \<open>"zzz"\<close>.
\<close>

theorem mc_unknown_counterexample:
  "normalize_mc_answer_to_letters [py ''Foo'', py ''Bar''] (Scalar (PStr (py ''zzz''))) = Inr {}
   \<and> normalize_mc_answer_to_letters [py ''Foo'', py ''Bar'']
         (Seq (correct_set_of remdups (Scalar (PStr (py ''zzz''))))) = Inr {}
   \<and> is_mc_selection_correct remdups [py ''Foo'', py ''Bar''] (Scalar (PStr (py ''zzz''))) {chr 65}
         = Inr (False, py ''zzz'')
   \<and> py ''zzz'' \<noteq> py ''Unknown''"
  by (simp add: is_mc_selection_correct_def py_eval)

text \<open>
  Claim C4, as the code has it: when both normalisations are empty and the raw correct
  values are texts, the display string is these texts joined by \<open>", "\<close> (in the order
  the set of them is iterated), and the verdict compares the texts of the selected
  options with them as sets. The selected letters are letters of options.
\<close>

theorem mc_display_when_unparseable:
  assumes n1: "normalize_mc_answer_to_letters options correct = Inr {}"
    and n2: "normalize_mc_answer_to_letters options (Seq (correct_set_of set_order correct)) = Inr {}"
    and texts: "texts_of (correct_set_of set_order correct) = Inr raw_texts"
    and sel: "selected_letters \<subseteq> {65..<65 + length options}"
  shows "is_mc_selection_correct set_order options correct selected_letters =
           Inr (PStr ` (\<lambda>L. options ! (L - 65)) ` selected_letters = PStr ` set raw_texts,
                join (py '', '') raw_texts)"
proof -
  have "set (correct_set_of set_order correct) = PStr ` set raw_texts"
    using texts_of_map [OF texts] by simp
  then show ?thesis
    using n1 n2 by (simp add: is_mc_selection_correct_def selected_texts_valid [OF sel]
      join_values_texts [OF texts] Let_def)
qed

theorem mc_display_when_unparseable_witness:
  "normalize_mc_answer_to_letters [py ''Foo'', py ''Bar''] (Scalar (PStr (py ''zzz''))) = Inr {}
   \<and> normalize_mc_answer_to_letters [py ''Foo'', py ''Bar'']
         (Seq (correct_set_of remdups (Scalar (PStr (py ''zzz''))))) = Inr {}
   \<and> texts_of (correct_set_of remdups (Scalar (PStr (py ''zzz'')))) = Inr [py ''zzz'']
   \<and> {chr 66} \<subseteq> {65..<65 + length [py ''Foo'', py ''Bar'']}
   \<and> is_mc_selection_correct remdups [py ''Foo'', py ''Bar''] (Scalar (PStr (py ''zzz''))) {chr 66}
         = Inr (False, py ''zzz'')"
proof -
  have n1: "normalize_mc_answer_to_letters [py ''Foo'', py ''Bar''] (Scalar (PStr (py ''zzz''))) = Inr {}"
    by (simp add: py_eval)
  have n2: "normalize_mc_answer_to_letters [py ''Foo'', py ''Bar'']
         (Seq (correct_set_of remdups (Scalar (PStr (py ''zzz''))))) = Inr {}"
    by (simp add: py_eval)
  have t: "texts_of (correct_set_of remdups (Scalar (PStr (py ''zzz'')))) = Inr [py ''zzz'']"
    by (simp add: py_eval)
  have sel: "{chr 66} \<subseteq> {65..<65 + length [py ''Foo'', py ''Bar'']}"
    by (simp add: chr_def)
  show ?thesis
    using n1 n2 t sel mc_display_when_unparseable [OF n1 n2 t sel]
    by (simp add: chr_def)
qed

text \<open>
  Claim C7 asks that the normaliser and the matcher never raise, whatever the
  correct-answer value. The normaliser never does (\<open>normalize_total\<close>). The matcher
  raises \<open>TypeError\<close> for the answers \<open>null\<close>, \<open>7\<close> and \<open>[null, 7]\<close> over the
  options \<open>Foo\<close>, \<open>Bar\<close> with \<open>A\<close> selected: the fallback joins the raw values as
  if they were texts.
\<close>

theorem mc_null_answer_raises:
  "is_mc_selection_correct set_order [py ''Foo'', py ''Bar''] (Scalar PNone) {chr 65} = Inl TypeError
   \<and> is_mc_selection_correct set_order [py ''Foo'', py ''Bar''] (Scalar (PInt 7)) {chr 65} = Inl TypeError
   \<and> is_mc_selection_correct remdups [py ''Foo'', py ''Bar''] (Seq [PNone, PInt 7]) {chr 65} = Inl TypeError"
  by (simp add: is_mc_selection_correct_def py_eval digits.simps)

section \<open>Properties of the normaliser\<close>

text \<open>
  Claim C8. Normalising two items gives the same letter set in either order, and more
  generally two item lists with the same elements, in any order and with any
  repetitions, normalise to the same result.
\<close>

theorem normalize_order_independent:
  "(\<exists>A. normalize_mc_answer_to_letters options (Seq [a, b]) = Inr A
        \<and> normalize_mc_answer_to_letters options (Seq [b, a]) = Inr A)
   \<and> (set items = set items' \<longrightarrow>
        normalize_mc_answer_to_letters options (Seq items) =
        normalize_mc_answer_to_letters options (Seq items'))"
  by (auto simp: normalize_eq)


theorem normalize_order_independent_witness:
  "normalize_mc_answer_to_letters [py ''Alpha'', py ''Beta''] (Seq [PStr (py ''B:''), PStr (py ''Alpha'')])
     = Inr {chr 65, chr 66}
   \<and> normalize_mc_answer_to_letters [py ''Alpha'', py ''Beta''] (Seq [PStr (py ''Alpha''), PStr (py ''B:'')])
     = Inr {chr 65, chr 66}
   \<and> normalize_mc_answer_to_letters [py ''Alpha'', py ''Beta'']
       (Seq [PStr (py ''Alpha''), PStr (py ''B:''), PStr (py ''Alpha'')])
     = normalize_mc_answer_to_letters [py ''Alpha'', py ''Beta''] (Seq [PStr (py ''B:''), PStr (py ''Alpha'')])"
proof -
  have n: "normalize_mc_answer_to_letters [py ''Alpha'', py ''Beta''] (Seq [PStr (py ''B:''), PStr (py ''Alpha'')])
     = Inr {chr 65, chr 66}"
    by (simp add: py_eval insert_commute)
  show ?thesis
    using n normalize_order_independent [of "[py ''Alpha'', py ''Beta'']" "PStr (py ''B:'')" "PStr (py ''Alpha'')"
        "[PStr (py ''Alpha''), PStr (py ''B:''), PStr (py ''Alpha'')]" "[PStr (py ''B:''), PStr (py ''Alpha'')]"]
    by auto
qed

text \<open>
  Claim C10. An item whose stripped text begins with a character that, in upper case, is
  the letter \<open>L\<close> of an option contributes exactly \<open>L\<close>, whatever else the item
  says: also when the item is the exact text of another option, so that the exact-text
  rule is reached only by items whose first character is not the letter of an option.
\<close>

theorem leading_letter_shadows_exact_text:
  assumes "strip (str raw) \<noteq> []"
    and "L = upper_chr (hd (strip (str raw)))"
    and "65 \<le> L" and "L < 65 + length options"
  shows "normalize_mc_answer_to_letters options (Seq [raw]) = Inr {L}
         \<and> (raw \<in> set items \<longrightarrow>
              (\<exists>A. normalize_mc_answer_to_letters options (Seq items) = Inr A \<and> L \<in> A))"
proof -
  have "item_letters (letters_map (length options)) (option_to_letter options) raw = {L}"
    using assms letters_map_dom [of "length options" L]
    by (auto simp: item_letters_def normalize_item_def Let_def getitem_zero)
  then show ?thesis
    by (auto simp: normalize_eq)
qed



theorem leading_letter_shadows_exact_text_witness:
  "strip (str (PStr (py ''Bravo''))) \<noteq> []
   \<and> chr 66 = upper_chr (hd (strip (str (PStr (py ''Bravo'')))))
   \<and> 65 \<le> chr 66 \<and> chr 66 < 65 + length [py ''Bravo'', py ''Alpha'']
   \<and> option_to_letter [py ''Bravo'', py ''Alpha''] (strip (str (PStr (py ''Bravo'')))) = Some (chr 65)
   \<and> normalize_mc_answer_to_letters [py ''Bravo'', py ''Alpha''] (Seq [PStr (py ''Bravo'')]) = Inr {chr 66}"
proof -
  have 1: "strip (str (PStr (py ''Bravo''))) \<noteq> []" by (simp add: py_eval)
  have 2: "chr 66 = upper_chr (hd (strip (str (PStr (py ''Bravo'')))))" by (simp add: py_eval)
  have 3: "65 \<le> chr 66" by (simp add: chr_def)
  have 4: "chr 66 < 65 + length [py ''Bravo'', py ''Alpha'']" by (simp add: chr_def)
  have 5: "option_to_letter [py ''Bravo'', py ''Alpha''] (strip (str (PStr (py ''Bravo'')))) = Some (chr 65)"
    by (simp add: py_eval)
  show ?thesis
    using 1 2 3 4 5 leading_letter_shadows_exact_text [OF 1 2 3 4] by simp
qed

section \<open>Ordered-selection questions\<close>

lemmas quiz_eval =
  load_asked_questions_def save_asked_questions_def reset_question_memory_def
  load_wrong_questions_def save_wrong_questions_def reset_wrong_questions_def
  load_score_history_def save_score_history_def record_score_def
  mark_question_correct_def record_wrong_question_def record_answer_def show_result_def
  truediv_def end_quiz_def ask_multiple_choice_def ask_drag_and_drop_def ask_question_def
  next_question_def selected_letters_of_def explanation_of_def expected_of_def
  slice_to_def build_queue_def run_quiz_def initial_state_def

lemma py_eq_iff: "py a = py b \<longleftrightarrow> a = b"
  by (rule inj_map_eq_map [OF inj_of_char])

lemma sample_question_eq [simp]: "sample_question a = sample_question b \<longleftrightarrow> a = b"
  by (simp add: sample_question_def py_eq_iff)

text \<open>
  Claim C6. The expected sequence of a drag-and-drop question is its correct value when
  that is a list, and the list of that one value when it is a scalar (line 369). For a
  correct value that is a list of texts, or a single text, the submission is counted
  correct exactly when the selected sequence has the length of the expected one and
  agrees with it at every index; the entries are compared as whole texts. For a wrong
  answer the message shows the expected sequence joined by \<open>", "\<close>.
\<close>

theorem drag_and_drop_positional:
  assumes answer:
    "q_answer question_data = Seq (map PStr correct_sequence)
     \<or> (q_answer question_data = Scalar (PStr correct_text) \<and> correct_sequence = [correct_text])"
  shows "submit_drag_and_drop question_data selected st =
           (if length selected = length correct_sequence
               \<and> (\<forall>i<length correct_sequence. selected ! i = correct_sequence ! i)
            then Inr (show_result
                        (py ''Correct!'' @ [10] @ py ''Explanation: '' @
                         explanation_of question_data [])
                        (record_answer question_data True st))
            else Inr (show_result
                        (py ''Wrong!'' @ [10] @ py ''Correct sequence: '' @
                         join (py '', '') correct_sequence @ [10] @
                         py ''Explanation: '' @ explanation_of question_data [])
                        (record_answer question_data False st)))"
proof -
  have texts: "expected_of (q_answer question_data) = map PStr correct_sequence"
    using answer by (auto simp: expected_of_def)
  have eq: "(map PStr selected = map PStr correct_sequence) \<longleftrightarrow>
            (length selected = length correct_sequence
              \<and> (\<forall>i<length correct_sequence. selected ! i = correct_sequence ! i))"
    by (auto simp: inj_map_eq_map [OF inj_onI] list_eq_iff_nth_eq)
  have jv: "join_values (py '', '') (map PStr correct_sequence) = Inr (join (py '', '') correct_sequence)"
    by (simp add: join_values_def texts_of_PStr)
  show ?thesis
    unfolding submit_drag_and_drop_def texts Let_def eq jv sum.case ..
qed

theorem drag_and_drop_positional_witness:
  "submit_drag_and_drop ((sample_question ''Order'')\<lparr>q_answer := Seq [PStr (py ''a|b''), PStr (py ''c'')]\<rparr>)
       [py ''a|b'', py ''c''] initial_state
     = Inr (show_result (py ''Correct!'' @ [10] @ py ''Explanation: '')
              (record_answer ((sample_question ''Order'')\<lparr>q_answer := Seq [PStr (py ''a|b''), PStr (py ''c'')]\<rparr>)
                 True initial_state))
   \<and> submit_drag_and_drop ((sample_question ''Order'')\<lparr>q_answer := Seq [PStr (py ''a|b''), PStr (py ''c'')]\<rparr>)
       [py ''a'', py ''b|c''] initial_state
     = Inr (show_result (py ''Wrong!'' @ [10] @ py ''Correct sequence: a|b, c'' @ [10] @ py ''Explanation: '')
              (record_answer ((sample_question ''Order'')\<lparr>q_answer := Seq [PStr (py ''a|b''), PStr (py ''c'')]\<rparr>)
                 False initial_state))
   \<and> submit_drag_and_drop ((sample_question ''Order'')\<lparr>q_answer := Seq [PStr (py ''a|b''), PStr (py ''c'')]\<rparr>)
       [py ''c'', py ''a|b''] initial_state
     = Inr (show_result (py ''Wrong!'' @ [10] @ py ''Correct sequence: a|b, c'' @ [10] @ py ''Explanation: '')
              (record_answer ((sample_question ''Order'')\<lparr>q_answer := Seq [PStr (py ''a|b''), PStr (py ''c'')]\<rparr>)
                 False initial_state))
   \<and> submit_drag_and_drop ((sample_question ''One'')\<lparr>q_answer := Scalar (PStr (py ''x|y''))\<rparr>)
       [py ''x|y''] initial_state
     = Inr (show_result (py ''Correct!'' @ [10] @ py ''Explanation: '')
              (record_answer ((sample_question ''One'')\<lparr>q_answer := Scalar (PStr (py ''x|y''))\<rparr>)
                 True initial_state))
   \<and> submit_drag_and_drop ((sample_question ''One'')\<lparr>q_answer := Scalar (PStr (py ''x|y''))\<rparr>)
       [py ''x''] initial_state
     = Inr (show_result (py ''Wrong!'' @ [10] @ py ''Correct sequence: x|y'' @ [10] @ py ''Explanation: '')
              (record_answer ((sample_question ''One'')\<lparr>q_answer := Scalar (PStr (py ''x|y''))\<rparr>)
                 False initial_state))
   \<and> submit_drag_and_drop ((sample_question ''One'')\<lparr>q_answer := Scalar (PStr (py ''x|y''))\<rparr>)
       [] initial_state
     = Inr (show_result (py ''Wrong!'' @ [10] @ py ''Correct sequence: x|y'' @ [10] @ py ''Explanation: '')
              (record_answer ((sample_question ''One'')\<lparr>q_answer := Scalar (PStr (py ''x|y''))\<rparr>)
                 False initial_state))"
proof -
  let ?q = "(sample_question ''Order'')\<lparr>q_answer := Seq [PStr (py ''a|b''), PStr (py ''c'')]\<rparr>"
  let ?r = "(sample_question ''One'')\<lparr>q_answer := Scalar (PStr (py ''x|y''))\<rparr>"
  have l: "q_answer ?q = Seq (map PStr [py ''a|b'', py ''c''])
           \<or> (q_answer ?q = Scalar (PStr []) \<and> [py ''a|b'', py ''c''] = [[]])"
    by simp
  have s: "q_answer ?r = Seq (map PStr [py ''x|y''])
           \<or> (q_answer ?r = Scalar (PStr (py ''x|y'')) \<and> [py ''x|y''] = [py ''x|y''])"
    by simp
  have two: "(\<forall>i<Suc (Suc 0). P i) \<longleftrightarrow> P 0 \<and> P (Suc 0)" for P
    by (auto simp: less_Suc_eq)
  have pos: "\<not> (\<forall>i::nat. 0 < i)"
    by auto
  show ?thesis
    using drag_and_drop_positional [OF l, of "[py ''a|b'', py ''c'']" initial_state]
      drag_and_drop_positional [OF l, of "[py ''a'', py ''b|c'']" initial_state]
      drag_and_drop_positional [OF l, of "[py ''c'', py ''a|b'']" initial_state]
      drag_and_drop_positional [OF s, of "[py ''x|y'']" initial_state]
      drag_and_drop_positional [OF s, of "[py ''x'']" initial_state]
      drag_and_drop_positional [OF s, of "[]" initial_state]
    by (simp add: two pos explanation_of_def sample_question_def)
qed

section \<open>Building the queue and ending the session\<close>

lemma end_quiz_eq:
  "end_quiz st =
     (let total_answered = (if current_question st > 0 then current_question st else 1);
          score = real (correct_answers st) / real total_answered * 100;
          st1 = record_score score (correct_answers st) total_answered st
      in Inr (st1\<lparr>opened := opened st1 @ [EndWindow (correct_answers st) total_answered score]\<rparr>))"
  by (simp add: end_quiz_def truediv_def Let_def)

lemma ask_question_total:
  "\<exists>st'. ask_question st = Inr st' \<and> question_queue st' = question_queue st"
  by (simp add: ask_question_def end_quiz_eq Let_def record_score_def save_score_history_def
      ask_multiple_choice_def ask_drag_and_drop_def)

lemma slice_to_count:
  "0 \<le> k \<Longrightarrow> slice_to xs (min k (int (length xs))) = take (min (nat k) (length xs)) xs"
  by (simp add: slice_to_def min_def nat_le_iff)

lemma run_quiz_start:
  assumes mastered: "mastered = (if reset_memory then [] else load_asked_questions st)"
    and missed: "missed = (if reset_missed then [] else load_wrong_questions st)"
  shows "\<exists>st0. run_quiz reset_memory reset_missed shuffle question_count topics st = ask_question st0
          \<and> question_queue st0 = build_queue shuffle question_count topics mastered missed
          \<and> correct_answers st0 = 0 \<and> current_question st0 = 0
          \<and> opened st0 = opened st \<and> score_file st0 = score_file st
          \<and> question_memory st0 = mastered \<and> load_asked_questions st0 = mastered
          \<and> load_wrong_questions st0 = missed"
  unfolding run_quiz_def Let_def
  by (rule exI, rule conjI, rule refl)
     (simp add: mastered missed load_asked_questions_def
      load_wrong_questions_def reset_question_memory_def reset_wrong_questions_def)

lemma ask_question_empty:
  assumes "question_queue st = []" and "current_question st = 0" and "correct_answers st = 0"
  shows "ask_question st =
           Inr (st\<lparr>score_file :=
                      Some (load_score_history st @ [\<lparr>h_correct = 0, h_total = 1, h_score = 0\<rparr>]),
                    opened := opened st @ [EndWindow 0 1 0]\<rparr>)"
  using assms
  by (simp add: ask_question_def end_quiz_eq Let_def record_score_def save_score_history_def)

lemma run_quiz_builds:
  assumes "mastered = (if reset_memory then [] else load_asked_questions st)"
    and "missed = (if reset_missed then [] else load_wrong_questions st)"
  shows "map_sum id question_queue
           (run_quiz reset_memory reset_missed shuffle question_count topics st) =
         Inr (build_queue shuffle question_count topics mastered missed)"
proof -
  from run_quiz_start [OF assms, of shuffle question_count topics]
  obtain st0 where
    r: "run_quiz reset_memory reset_missed shuffle question_count topics st = ask_question st0"
    and q0: "question_queue st0 = build_queue shuffle question_count topics mastered missed"
    by blast
  from ask_question_total [of st0] obtain st' where
    "ask_question st0 = Inr st'" "question_queue st' = question_queue st0"
    by blast
  with r q0 show ?thesis by simp
qed


text \<open>After \<open>run_quiz\<close> the list \<open>question_memory\<close> is the stored mastered list.\<close>

lemma ask_question_keeps_lists:
  "\<exists>st'. ask_question st = Inr st' \<and> question_memory st' = question_memory st
         \<and> load_asked_questions st' = load_asked_questions st
         \<and> load_wrong_questions st' = load_wrong_questions st"
  by (simp add: ask_question_def end_quiz_eq Let_def record_score_def save_score_history_def
      ask_multiple_choice_def ask_drag_and_drop_def load_asked_questions_def
      load_wrong_questions_def)

lemma run_quiz_syncs_memory:
  "\<exists>st'. run_quiz reset_memory reset_missed shuffle question_count topics st = Inr st'
         \<and> question_memory st' = load_asked_questions st'"
proof -
  from run_quiz_start [OF refl refl, of reset_memory reset_missed shuffle question_count topics st]
  obtain st0 where
    r: "run_quiz reset_memory reset_missed shuffle question_count topics st = ask_question st0"
    and m: "question_memory st0 = (if reset_memory then [] else load_asked_questions st)"
    and a: "load_asked_questions st0 = (if reset_memory then [] else load_asked_questions st)"
    by blast
  from ask_question_keeps_lists [of st0] obtain st' where
    "ask_question st0 = Inr st'" "question_memory st' = question_memory st0"
    "load_asked_questions st' = load_asked_questions st0"
    by blast
  with r m a show ?thesis by simp
qed

text \<open>
  A negative count is not clamped: the slice \<open>combined[:count]\<close> then drops that many
  questions from the end.
\<close>

lemma run_quiz_negative_count:
  assumes "question_count < 0"
    and "mastered = (if reset_memory then [] else load_asked_questions st)"
    and "missed = (if reset_missed then [] else load_wrong_questions st)"
  shows "map_sum id question_queue
           (run_quiz reset_memory reset_missed shuffle question_count topics st) =
         Inr (let bank = concat (map snd topics);
                  present = [q \<leftarrow> missed. q \<in> set bank];
                  combined = present @ shuffle [q \<leftarrow> bank. q \<notin> set mastered \<and> q \<notin> set present]
              in take (nat (int (length combined) + question_count)) combined)"
  using assms(1)
  by (simp add: run_quiz_builds [OF assms(2,3)] build_queue_def slice_to_def Let_def min_def)

lemma run_quiz_queue_shape:
  fixes st :: quiz_state and topics :: "(pystr \<times> question list) list"
  defines "bank \<equiv> concat (map snd topics)"
  assumes shuf: "is_shuffle shuffle" and count: "0 \<le> question_count"
    and mastered: "mastered = (if reset_memory then [] else load_asked_questions st)"
    and missed: "missed = (if reset_missed then [] else load_wrong_questions st)"
  shows "\<exists>st' remainder.
           run_quiz reset_memory reset_missed shuffle question_count topics st = Inr st'
           \<and> mset remainder = mset [q \<leftarrow> bank. q \<notin> set mastered \<and> q \<notin> set missed]
           \<and> question_queue st' =
               take (min (nat question_count) (length ([q \<leftarrow> missed. q \<in> set bank] @ remainder)))
                 ([q \<leftarrow> missed. q \<in> set bank] @ remainder)"
proof -
  let ?present = "[q \<leftarrow> missed. q \<in> set bank]"
  let ?rest = "[q \<leftarrow> bank. q \<notin> set mastered \<and> q \<notin> set ?present]"
  have rest: "?rest = [q \<leftarrow> bank. q \<notin> set mastered \<and> q \<notin> set missed]"
    by (rule filter_cong) auto
  have queue: "build_queue shuffle question_count topics mastered missed =
                 take (min (nat question_count) (length (?present @ shuffle ?rest))) (?present @ shuffle ?rest)"
    unfolding build_queue_def Let_def bank_def [symmetric]
    by (rule slice_to_count [OF count])
  have mem: "mset (shuffle ?rest) = mset [q \<leftarrow> bank. q \<notin> set mastered \<and> q \<notin> set missed]"
    using shuf rest by (simp add: is_shuffle_def)
  have start: "\<exists>st0. run_quiz reset_memory reset_missed shuffle question_count topics st = ask_question st0
          \<and> question_queue st0 = build_queue shuffle question_count topics mastered missed"
    unfolding run_quiz_def Let_def
    by (rule exI, rule conjI, rule refl)
       (simp add: mastered missed load_asked_questions_def
        load_wrong_questions_def reset_question_memory_def reset_wrong_questions_def)
  then obtain st0 where
    r: "run_quiz reset_memory reset_missed shuffle question_count topics st = ask_question st0"
    and q0: "question_queue st0 = build_queue shuffle question_count topics mastered missed"
    by blast
  from ask_question_total [of st0] obtain st' where
    a: "ask_question st0 = Inr st'" and q: "question_queue st' = question_queue st0"
    by blast
  show ?thesis
  proof (intro exI conjI)
    show "run_quiz reset_memory reset_missed shuffle question_count topics st = Inr st'"
      using r a by simp
    show "mset (shuffle ?rest) = mset [q \<leftarrow> bank. q \<notin> set mastered \<and> q \<notin> set missed]"
      by (rule mem)
    show "question_queue st' =
            take (min (nat question_count) (length (?present @ shuffle ?rest))) (?present @ shuffle ?rest)"
      using q q0 queue by simp
  qed
qed


lemma run_quiz_example_rev: "map_sum id question_queue
        (run_quiz False False rev 3
           [(py ''Topic'', [sample_question ''Q1'', sample_question ''Q2'',
                            sample_question ''Q3'', sample_question ''Q4''])]
           (initial_state\<lparr>asked_file := Some [sample_question ''Q4''],
                           wrong_file := Some [sample_question ''Q2'']\<rparr>))
      = Inr [sample_question ''Q2'', sample_question ''Q3'', sample_question ''Q1'']"
  by (simp add: run_quiz_builds [OF refl refl] build_queue_def slice_to_def
      load_asked_questions_def load_wrong_questions_def initial_state_def)


lemma run_quiz_example:
  assumes "is_shuffle shuffle"
  shows "\<exists>st' a b.
           run_quiz False False shuffle 3
             [(py ''Topic'', [sample_question ''Q1'', sample_question ''Q2'',
                              sample_question ''Q3'', sample_question ''Q4''])]
             (initial_state\<lparr>asked_file := Some [sample_question ''Q4''],
                             wrong_file := Some [sample_question ''Q2'']\<rparr>) = Inr st'
           \<and> question_queue st' = [sample_question ''Q2'', a, b]
           \<and> {a, b} = {sample_question ''Q1'', sample_question ''Q3''}"
proof -
  have c: "(0::int) \<le> 3" by simp
  from run_quiz_queue_shape [OF assms c refl refl, where reset_memory = False and reset_missed = False
        and st = "initial_state\<lparr>asked_file := Some [sample_question ''Q4''],
                           wrong_file := Some [sample_question ''Q2'']\<rparr>"
        and topics = "[(py ''Topic'', [sample_question ''Q1'', sample_question ''Q2'',
                            sample_question ''Q3'', sample_question ''Q4''])]"]
  obtain st' remainder where
    r: "run_quiz False False shuffle 3
             [(py ''Topic'', [sample_question ''Q1'', sample_question ''Q2'',
                              sample_question ''Q3'', sample_question ''Q4''])]
             (initial_state\<lparr>asked_file := Some [sample_question ''Q4''],
                             wrong_file := Some [sample_question ''Q2'']\<rparr>) = Inr st'"
    and m: "mset remainder = mset [sample_question ''Q1'', sample_question ''Q3'']"
    and q: "question_queue st' = take (min 3 (Suc (length remainder))) (sample_question ''Q2'' # remainder)"
    by (auto simp: load_asked_questions_def load_wrong_questions_def initial_state_def)
  from m have len: "length remainder = 2" using mset_eq_length by fastforce
  then obtain a b where ab: "remainder = [a, b]"
    by (auto simp: length_Suc_conv numeral_2_eq_2)
  from m ab have "{a, b} = {sample_question ''Q1'', sample_question ''Q3''}"
    using mset_eq_setD by fastforce
  with r q ab show ?thesis by auto
qed


text \<open>
  Claim C2 speaks of every requested count. The count comes from the entry box through
  \<open>int(...)\<close> and may be negative; \<open>run_quiz\<close> bounds it by the length of the list
  only from above and passes it to the slice \<open>combined[:count]\<close>. With the bank
  \<open>Q1\<close>, \<open>Q2\<close>, \<open>Q3\<close>, \<open>Q4\<close>, \<open>Q2\<close> missed, \<open>Q4\<close> mastered, the shuffle that
  reverses, and the count -1, the three available questions are \<open>Q2\<close>, \<open>Q3\<close>, \<open>Q1\<close>
  and the queue is \<open>Q2\<close>, \<open>Q3\<close>: its length is 2, not the smaller of -1 and 3, and it
  is not the list cut to that length.
\<close>

theorem run_quiz_negative_count_counterexample:
  "map_sum id question_queue
        (run_quiz False False rev (- 1)
           [(py ''Topic'', [sample_question ''Q1'', sample_question ''Q2'',
                            sample_question ''Q3'', sample_question ''Q4''])]
           (initial_state\<lparr>asked_file := Some [sample_question ''Q4''],
                           wrong_file := Some [sample_question ''Q2'']\<rparr>))
      = Inr [sample_question ''Q2'', sample_question ''Q3'']
   \<and> int (length [sample_question ''Q2'', sample_question ''Q3'']) \<noteq> min (- 1) 3
   \<and> [sample_question ''Q2'', sample_question ''Q3'']
       \<noteq> take (nat (min (- 1) 3))
             [sample_question ''Q2'', sample_question ''Q3'', sample_question ''Q1'']"
  by (simp add: run_quiz_builds [OF refl refl] build_queue_def slice_to_def
      load_asked_questions_def load_wrong_questions_def initial_state_def)

text \<open>
  Claim C2, as the code has it. For a requested count that is not negative,
  \<open>run_quiz\<close> returns, and its
  queue is the stored missed questions that are still in the bank, in their stored
  order, followed by a permutation of the bank questions that are neither mastered nor
  missed, cut to the requested count or to the number of questions available if that
  is smaller. The mastered and the missed list are the stored ones, or empty when the
  user asked for a reset. In particular, for the bank \<open>Q1\<close>, \<open>Q2\<close>, \<open>Q3\<close>, \<open>Q4\<close> with
  \<open>Q2\<close> missed, \<open>Q4\<close> mastered and three questions requested, the queue is \<open>Q2\<close>
  followed by \<open>Q1\<close> and \<open>Q3\<close> in some order, whatever the shuffle.
\<close>

theorem run_quiz_queue:
  fixes st :: quiz_state and topics :: "(pystr \<times> question list) list"
  assumes shuf: "is_shuffle shuffle" and count: "0 \<le> question_count"
    and mastered: "mastered = (if reset_memory then [] else load_asked_questions st)"
    and missed: "missed = (if reset_missed then [] else load_wrong_questions st)"
  shows "(\<exists>st' remainder.
           run_quiz reset_memory reset_missed shuffle question_count topics st = Inr st'
           \<and> mset remainder =
               mset [q \<leftarrow> concat (map snd topics). q \<notin> set mastered \<and> q \<notin> set missed]
           \<and> question_queue st' =
               take (min (nat question_count)
                       (length ([q \<leftarrow> missed. q \<in> set (concat (map snd topics))] @ remainder)))
                 ([q \<leftarrow> missed. q \<in> set (concat (map snd topics))] @ remainder))
         \<and> (\<exists>st' a b.
           run_quiz False False shuffle 3
             [(py ''Topic'', [sample_question ''Q1'', sample_question ''Q2'',
                              sample_question ''Q3'', sample_question ''Q4''])]
             (initial_state\<lparr>asked_file := Some [sample_question ''Q4''],
                             wrong_file := Some [sample_question ''Q2'']\<rparr>) = Inr st'
           \<and> question_queue st' = [sample_question ''Q2'', a, b]
           \<and> {a, b} = {sample_question ''Q1'', sample_question ''Q3''})"
  using run_quiz_queue_shape [OF shuf count mastered missed] run_quiz_example [OF shuf]
  by (rule conjI)

theorem run_quiz_queue_witness:
  "is_shuffle rev \<and> (0::int) \<le> 3
   \<and> (\<exists>st' a b.
         run_quiz False False rev 3
           [(py ''Topic'', [sample_question ''Q1'', sample_question ''Q2'',
                            sample_question ''Q3'', sample_question ''Q4''])]
           (initial_state\<lparr>asked_file := Some [sample_question ''Q4''],
                           wrong_file := Some [sample_question ''Q2'']\<rparr>) = Inr st'
         \<and> question_queue st' = [sample_question ''Q2'', a, b]
         \<and> {a, b} = {sample_question ''Q1'', sample_question ''Q3''})
   \<and> map_sum id question_queue
        (run_quiz False False rev 3
           [(py ''Topic'', [sample_question ''Q1'', sample_question ''Q2'',
                            sample_question ''Q3'', sample_question ''Q4''])]
           (initial_state\<lparr>asked_file := Some [sample_question ''Q4''],
                           wrong_file := Some [sample_question ''Q2'']\<rparr>))
      = Inr [sample_question ''Q2'', sample_question ''Q3'', sample_question ''Q1'']"
proof -
  have s: "is_shuffle rev" by (simp add: is_shuffle_def)
  have c: "(0::int) \<le> 3" by simp
  from run_quiz_queue [OF s c refl refl, where reset_memory = False and reset_missed = False
        and st = "initial_state\<lparr>asked_file := Some [sample_question ''Q4''],
                           wrong_file := Some [sample_question ''Q2'']\<rparr>"
        and topics = "[(py ''Topic'', [sample_question ''Q1'', sample_question ''Q2'',
                            sample_question ''Q3'', sample_question ''Q4''])]", THEN conjunct1]
  obtain st' remainder where
    r: "run_quiz False False rev 3
             [(py ''Topic'', [sample_question ''Q1'', sample_question ''Q2'',
                              sample_question ''Q3'', sample_question ''Q4''])]
             (initial_state\<lparr>asked_file := Some [sample_question ''Q4''],
                             wrong_file := Some [sample_question ''Q2'']\<rparr>) = Inr st'"
    and m: "mset remainder = mset [sample_question ''Q1'', sample_question ''Q3'']"
    and q: "question_queue st' = take (min 3 (Suc (length remainder))) (sample_question ''Q2'' # remainder)"
    by (auto simp: load_asked_questions_def load_wrong_questions_def initial_state_def)
  from m have len: "length remainder = 2" using mset_eq_length by fastforce
  then obtain a b where ab: "remainder = [a, b]"
    by (auto simp: length_Suc_conv numeral_2_eq_2)
  from m ab have "{a, b} = {sample_question ''Q1'', sample_question ''Q3''}"
    using mset_eq_setD by fastforce
  with r q ab have "\<exists>st' a b.
         run_quiz False False rev 3
           [(py ''Topic'', [sample_question ''Q1'', sample_question ''Q2'',
                            sample_question ''Q3'', sample_question ''Q4''])]
           (initial_state\<lparr>asked_file := Some [sample_question ''Q4''],
                           wrong_file := Some [sample_question ''Q2'']\<rparr>) = Inr st'
         \<and> question_queue st' = [sample_question ''Q2'', a, b]
         \<and> {a, b} = {sample_question ''Q1'', sample_question ''Q3''}"
    by auto
  with s c run_quiz_example_rev show ?thesis by blast
qed

text \<open>
  Claim C5. \<open>run_quiz\<close> always returns; when the queue it built is empty, the only
  window it opens is the end window, showing 0 correct answers out of 1 and the score 0,
  the same entry is appended to the score history, and no exception is raised (the
  division is by 1, not by 0).
\<close>

theorem empty_queue_ends_session:
  "\<exists>st'. run_quiz reset_memory reset_missed shuffle question_count topics st = Inr st'
     \<and> (question_queue st' = [] \<longrightarrow>
          opened st' = opened st @ [EndWindow 0 1 0]
          \<and> load_score_history st' =
              load_score_history st @ [\<lparr>h_correct = 0, h_total = 1, h_score = 0\<rparr>]
          \<and> correct_answers st' = 0 \<and> current_question st' = 0)"
proof -
  from run_quiz_start [OF refl refl, of reset_memory reset_missed shuffle question_count topics st]
  obtain st0 where
    r: "run_quiz reset_memory reset_missed shuffle question_count topics st = ask_question st0"
    and z: "correct_answers st0 = 0" "current_question st0 = 0"
    and o: "opened st0 = opened st" "score_file st0 = score_file st"
    by blast
  from ask_question_total [of st0] obtain st' where
    a: "ask_question st0 = Inr st'" and q: "question_queue st' = question_queue st0"
    by blast
  have "opened st' = opened st @ [EndWindow 0 1 0]
          \<and> load_score_history st' =
              load_score_history st @ [\<lparr>h_correct = 0, h_total = 1, h_score = 0\<rparr>]
          \<and> correct_answers st' = 0 \<and> current_question st' = 0"
    if "question_queue st' = []"
  proof -
    from that q have "question_queue st0 = []" by simp
    from ask_question_empty [OF this z(2) z(1)] a z o show ?thesis
      by (auto simp: load_score_history_def)
  qed
  with r a show ?thesis by auto
qed

theorem empty_queue_ends_session_witness:
  "run_quiz False False rev 5 [(py ''Topic'', [sample_question ''Q1''])]
      (initial_state\<lparr>asked_file := Some [sample_question ''Q1'']\<rparr>)
    = Inr (initial_state\<lparr>asked_file := Some [sample_question ''Q1''],
             question_memory := [sample_question ''Q1''],
             score_file := Some [\<lparr>h_correct = 0, h_total = 1, h_score = 0\<rparr>],
             opened := [EndWindow 0 1 0]\<rparr>)
   \<and> (\<exists>st'. run_quiz False False rev 5 [(py ''Topic'', [sample_question ''Q1''])]
              (initial_state\<lparr>asked_file := Some [sample_question ''Q1'']\<rparr>) = Inr st'
         \<and> question_queue st' = []
         \<and> opened st' = [EndWindow 0 1 0]
         \<and> load_score_history st' = [\<lparr>h_correct = 0, h_total = 1, h_score = 0\<rparr>])"
proof -
  have ev: "run_quiz False False rev 5 [(py ''Topic'', [sample_question ''Q1''])]
      (initial_state\<lparr>asked_file := Some [sample_question ''Q1'']\<rparr>)
    = Inr (initial_state\<lparr>asked_file := Some [sample_question ''Q1''],
             question_memory := [sample_question ''Q1''],
             score_file := Some [\<lparr>h_correct = 0, h_total = 1, h_score = 0\<rparr>],
             opened := [EndWindow 0 1 0]\<rparr>)"
    by (simp add: quiz_eval Let_def)
  show ?thesis
    using ev empty_queue_ends_session [of False False rev 5 "[(py ''Topic'', [sample_question ''Q1''])]"
        "initial_state\<lparr>asked_file := Some [sample_question ''Q1'']\<rparr>"]
    by (auto simp: initial_state_def load_score_history_def)
qed

section \<open>The mastered and the missed list\<close>

lemma mark_question_correct_wrong:
  "load_wrong_questions (mark_question_correct q st) = remove1 q (load_wrong_questions st)"
proof (cases "q \<in> set (question_memory st)")
  case True
  then show ?thesis
    unfolding mark_question_correct_def Let_def
    by (simp add: load_wrong_questions_def save_wrong_questions_def remove1_idem)
next
  case False
  then show ?thesis
    unfolding mark_question_correct_def Let_def
    by (simp add: load_wrong_questions_def save_wrong_questions_def save_asked_questions_def
        remove1_idem)
qed

lemma mark_question_correct_asked:
  assumes sync: "question_memory st = load_asked_questions st"
  shows "load_asked_questions (mark_question_correct q st) =
           (if q \<in> set (load_asked_questions st) then load_asked_questions st
            else load_asked_questions st @ [q])
         \<and> question_memory (mark_question_correct q st) =
             load_asked_questions (mark_question_correct q st)"
proof (cases "q \<in> set (question_memory st)")
  case True
  with sync have "q \<in> set (load_asked_questions st)" by simp
  with True sync show ?thesis
    unfolding mark_question_correct_def Let_def
    by (simp add: load_asked_questions_def save_wrong_questions_def)
next
  case False
  with sync have "q \<notin> set (load_asked_questions st)" by simp
  with False sync show ?thesis
    unfolding mark_question_correct_def Let_def
    by (simp add: load_asked_questions_def save_wrong_questions_def save_asked_questions_def)
qed

lemma record_wrong_question_files:
  shows "load_asked_questions (record_wrong_question q st) = load_asked_questions st"
    and "load_wrong_questions (record_wrong_question q st) =
           (if q \<in> set (load_wrong_questions st) then load_wrong_questions st
            else load_wrong_questions st @ [q])"
    and "question_memory (record_wrong_question q st) = question_memory st"
  by (simp_all add: record_wrong_question_def Let_def load_asked_questions_def
      load_wrong_questions_def save_wrong_questions_def)

lemma show_result_files:
  "load_asked_questions (show_result m st) = load_asked_questions st"
  "load_wrong_questions (show_result m st) = load_wrong_questions st"
  "question_memory (show_result m st) = question_memory st"
  by (simp_all add: show_result_def load_asked_questions_def load_wrong_questions_def)

lemma submit_multiple_choice_records:
  assumes "submit_multiple_choice set_order q user_vars st = Inr st'"
  shows "\<exists>is_correct message. st' = show_result message (record_answer q is_correct st)"
proof (cases "is_mc_selection_correct set_order (q_options q) (q_answer q) (selected_letters_of user_vars)")
  case (Inl e)
  with assms show ?thesis
    by (simp add: submit_multiple_choice_def)
next
  case (Inr r)
  obtain b d where r: "r = (b, d)" by (cases r)
  show ?thesis
  proof (cases b)
    case True
    with Inr r assms
    have "st' = show_result (py ''Correct!'' @ [10] @ py ''Explanation: '' @
                  explanation_of q (py ''No explanation available.''))
                 (record_answer q True st)"
      unfolding submit_multiple_choice_def Let_def by simp
    then show ?thesis by blast
  next
    case False
    with Inr r assms
    have "st' = show_result (py ''Wrong! Correct answer: '' @ d @ [10] @ py ''Explanation: '' @
                  explanation_of q (py ''No explanation available.''))
                 (record_answer q False st)"
      unfolding submit_multiple_choice_def Let_def by simp
    then show ?thesis by blast
  qed
qed

lemma submit_drag_and_drop_records:
  assumes "submit_drag_and_drop q selected st = Inr st'"
  shows "\<exists>is_correct message. st' = show_result message (record_answer q is_correct st)"
proof (cases "map PStr selected = expected_of (q_answer q)")
  case True
  with assms
  have "st' = show_result (py ''Correct!'' @ [10] @ py ''Explanation: '' @ explanation_of q [])
               (record_answer q True st)"
    unfolding submit_drag_and_drop_def Let_def by simp
  then show ?thesis by blast
next
  case False
  show ?thesis
  proof (cases "join_values (py '', '') (expected_of (q_answer q))")
    case (Inl e)
    with False assms show ?thesis
      unfolding submit_drag_and_drop_def Let_def by simp
  next
    case (Inr sequence)
    with False assms
    have "st' = show_result (py ''Wrong!'' @ [10] @ py ''Correct sequence: '' @ sequence @ [10] @
                        py ''Explanation: '' @ explanation_of q [])
               (record_answer q False st)"
      unfolding submit_drag_and_drop_def Let_def by simp
    then show ?thesis by blast
  qed
qed

text \<open>
  Claim C9 says that every submission keeps the mastered and the missed list disjoint,
  from any state in which they are. With \<open>Q1\<close> already mastered and nothing missed,
  a wrong answer to \<open>Q1\<close> appends it to the missed list and leaves the mastered list
  alone: afterwards \<open>Q1\<close> is in both.
\<close>

theorem mastered_then_missed_counterexample:
  "set (load_asked_questions
          (initial_state\<lparr>question_memory := [sample_question ''Q1''],
                          asked_file := Some [sample_question ''Q1'']\<rparr>))
     \<inter> set (load_wrong_questions
          (initial_state\<lparr>question_memory := [sample_question ''Q1''],
                          asked_file := Some [sample_question ''Q1'']\<rparr>)) = {}
   \<and> submit_multiple_choice remdups (sample_question ''Q1'') [False, True]
        (initial_state\<lparr>question_memory := [sample_question ''Q1''],
                        asked_file := Some [sample_question ''Q1'']\<rparr>)
      = Inr (initial_state\<lparr>question_memory := [sample_question ''Q1''],
                        asked_file := Some [sample_question ''Q1''],
                        wrong_file := Some [sample_question ''Q1''],
                        opened := [ResultWindow
                           (py ''Wrong! Correct answer: A. Foo'' @ [10] @
                            py ''Explanation: No explanation available.'')]\<rparr>)
   \<and> set (load_asked_questions
          (initial_state\<lparr>question_memory := [sample_question ''Q1''],
                        asked_file := Some [sample_question ''Q1''],
                        wrong_file := Some [sample_question ''Q1''],
                        opened := [ResultWindow
                           (py ''Wrong! Correct answer: A. Foo'' @ [10] @
                            py ''Explanation: No explanation available.'')]\<rparr>))
     \<inter> set (load_wrong_questions
          (initial_state\<lparr>question_memory := [sample_question ''Q1''],
                        asked_file := Some [sample_question ''Q1''],
                        wrong_file := Some [sample_question ''Q1''],
                        opened := [ResultWindow
                           (py ''Wrong! Correct answer: A. Foo'' @ [10] @
                            py ''Explanation: No explanation available.'')]\<rparr>))
     = {sample_question ''Q1''}"
proof -
  have sel: "selected_letters_of [False, True] = {66}"
    by (simp add: selected_letters_of_def chr_def)
  have mc: "is_mc_selection_correct remdups (q_options (sample_question ''Q1''))
              (q_answer (sample_question ''Q1'')) (selected_letters_of [False, True])
            = Inr (False, py ''A. Foo'')"
    unfolding sel by (simp add: sample_question_def is_mc_selection_correct_def py_eval)
  have e: "explanation_of (sample_question ''Q1'') d = d" for d
    by (simp add: explanation_of_def sample_question_def)
  have sub: "submit_multiple_choice remdups (sample_question ''Q1'') [False, True] st
      = Inr (show_result (py ''Wrong! Correct answer: '' @ py ''A. Foo'' @ [10] @
                          py ''Explanation: '' @ py ''No explanation available.'')
               (record_wrong_question (sample_question ''Q1'') st))" for st
    unfolding submit_multiple_choice_def Let_def mc e record_answer_def by simp
  show ?thesis
    unfolding sub
    by (simp add: show_result_def record_wrong_question_def load_wrong_questions_def
        load_asked_questions_def save_wrong_questions_def initial_state_def Let_def)
qed

text \<open>
  Claim C9, as the code has it. Both \<open>submit\<close> handlers update the lists by
  \<open>record_answer\<close> (\<open>submit_multiple_choice_records\<close>, \<open>submit_drag_and_drop_records\<close>).
  From a state in which the mastered and the missed list are disjoint, the missed list
  holds no question twice and \<open>question_memory\<close> is the stored mastered list (as it is
  after \<open>run_quiz\<close>), a submission keeps all three properties, provided a question
  answered wrongly is not already mastered. A correct answer puts the question into the
  mastered list and takes it out of the missed list; a wrong answer puts it into the
  missed list and leaves the mastered list as it is.
\<close>

theorem record_answer_keeps_disjoint:
  assumes sync: "question_memory st = load_asked_questions st"
    and disj: "set (load_asked_questions st) \<inter> set (load_wrong_questions st) = {}"
    and dist: "distinct (load_wrong_questions st)"
    and fresh: "\<not> is_correct \<longrightarrow> q \<notin> set (load_asked_questions st)"
    and step: "st' = record_answer q is_correct st"
  shows "set (load_asked_questions st') \<inter> set (load_wrong_questions st') = {}
         \<and> distinct (load_wrong_questions st')
         \<and> question_memory st' = load_asked_questions st'
         \<and> (is_correct \<longrightarrow> q \<in> set (load_asked_questions st') \<and> q \<notin> set (load_wrong_questions st'))
         \<and> (\<not> is_correct \<longrightarrow> q \<in> set (load_wrong_questions st')
                \<and> load_asked_questions st' = load_asked_questions st)"
proof (cases is_correct)
  case True
  define st1 where "st1 = st\<lparr>correct_answers := correct_answers st + 1\<rparr>"
  have a1: "load_asked_questions st1 = load_asked_questions st"
    and w1: "load_wrong_questions st1 = load_wrong_questions st"
    and m1: "question_memory st1 = question_memory st"
    by (simp_all add: st1_def load_asked_questions_def load_wrong_questions_def)
  have s1: "question_memory st1 = load_asked_questions st1"
    using sync a1 m1 by simp
  have st': "st' = mark_question_correct q st1"
    using True step by (simp add: record_answer_def st1_def)
  have w: "load_wrong_questions st' = remove1 q (load_wrong_questions st)"
    unfolding st' mark_question_correct_wrong w1 ..
  have a: "load_asked_questions st' =
             (if q \<in> set (load_asked_questions st) then load_asked_questions st
              else load_asked_questions st @ [q])"
    and m: "question_memory st' = load_asked_questions st'"
    using mark_question_correct_asked [OF s1, of q] unfolding st' a1 by simp_all
  have rs: "set (remove1 q (load_wrong_questions st)) = set (load_wrong_questions st) - {q}"
    using dist by (rule set_remove1_eq)
  have 1: "set (load_asked_questions st') \<inter> set (load_wrong_questions st') = {}"
    using disj unfolding w a rs by auto
  have 2: "distinct (load_wrong_questions st')"
    unfolding w using dist by (rule distinct_remove1)
  have 3: "q \<in> set (load_asked_questions st')"
    unfolding a by simp
  have 4: "q \<notin> set (load_wrong_questions st')"
    unfolding w rs by simp
  from True 1 2 3 4 m show ?thesis by simp
next
  case False
  with step have st': "st' = record_wrong_question q st"
    by (simp add: record_answer_def)
  from False fresh have nq: "q \<notin> set (load_asked_questions st)" by simp
  have a: "load_asked_questions st' = load_asked_questions st"
    and m: "question_memory st' = question_memory st"
    and w: "load_wrong_questions st' =
           (if q \<in> set (load_wrong_questions st) then load_wrong_questions st
            else load_wrong_questions st @ [q])"
    unfolding st' by (rule record_wrong_question_files)+
  have 1: "set (load_asked_questions st') \<inter> set (load_wrong_questions st') = {}"
    using disj nq unfolding a w by auto
  have 2: "distinct (load_wrong_questions st')"
    using dist unfolding w by simp
  have 3: "q \<in> set (load_wrong_questions st')"
    unfolding w by simp
  from False 1 2 3 a m sync show ?thesis by simp
qed

theorem record_answer_keeps_disjoint_witness:
  "question_memory (initial_state\<lparr>question_memory := [sample_question ''Q1''],
       asked_file := Some [sample_question ''Q1''], wrong_file := Some [sample_question ''Q2'']\<rparr>)
     = load_asked_questions (initial_state\<lparr>question_memory := [sample_question ''Q1''],
       asked_file := Some [sample_question ''Q1''], wrong_file := Some [sample_question ''Q2'']\<rparr>)
   \<and> load_asked_questions (record_answer (sample_question ''Q2'') True
         (initial_state\<lparr>question_memory := [sample_question ''Q1''],
            asked_file := Some [sample_question ''Q1''], wrong_file := Some [sample_question ''Q2'']\<rparr>))
       = [sample_question ''Q1'', sample_question ''Q2'']
   \<and> load_wrong_questions (record_answer (sample_question ''Q2'') True
         (initial_state\<lparr>question_memory := [sample_question ''Q1''],
            asked_file := Some [sample_question ''Q1''], wrong_file := Some [sample_question ''Q2'']\<rparr>))
       = []
   \<and> set (load_asked_questions (record_answer (sample_question ''Q3'') False
         (initial_state\<lparr>question_memory := [sample_question ''Q1''],
            asked_file := Some [sample_question ''Q1''], wrong_file := Some [sample_question ''Q2'']\<rparr>)))
       \<inter> set (load_wrong_questions (record_answer (sample_question ''Q3'') False
         (initial_state\<lparr>question_memory := [sample_question ''Q1''],
            asked_file := Some [sample_question ''Q1''], wrong_file := Some [sample_question ''Q2'']\<rparr>)))
       = {}
   \<and> sample_question ''Q3'' \<in> set (load_wrong_questions (record_answer (sample_question ''Q3'') False
         (initial_state\<lparr>question_memory := [sample_question ''Q1''],
            asked_file := Some [sample_question ''Q1''], wrong_file := Some [sample_question ''Q2'']\<rparr>)))"
proof -
  define st0 where "st0 = initial_state\<lparr>question_memory := [sample_question ''Q1''],
       asked_file := Some [sample_question ''Q1''], wrong_file := Some [sample_question ''Q2'']\<rparr>"
  have a0: "load_asked_questions st0 = [sample_question ''Q1'']"
    and w0: "load_wrong_questions st0 = [sample_question ''Q2'']"
    and m0: "question_memory st0 = [sample_question ''Q1'']"
    by (simp_all add: st0_def load_asked_questions_def load_wrong_questions_def initial_state_def)
  have sync: "question_memory st0 = load_asked_questions st0" using a0 m0 by simp
  have disj: "set (load_asked_questions st0) \<inter> set (load_wrong_questions st0) = {}"
    unfolding a0 w0 by simp
  have dist: "distinct (load_wrong_questions st0)" unfolding w0 by simp
  have f1: "\<not> True \<longrightarrow> sample_question ''Q2'' \<notin> set (load_asked_questions st0)" by simp
  have f2: "\<not> False \<longrightarrow> sample_question ''Q3'' \<notin> set (load_asked_questions st0)"
    unfolding a0 by simp
  have r1: "load_asked_questions (record_answer (sample_question ''Q2'') True st0)
              = [sample_question ''Q1'', sample_question ''Q2'']"
    and r2: "load_wrong_questions (record_answer (sample_question ''Q2'') True st0) = []"
    unfolding record_answer_def
    using mark_question_correct_asked [of "st0\<lparr>correct_answers := correct_answers st0 + 1\<rparr>"
        "sample_question ''Q2''"]
      mark_question_correct_wrong [of "sample_question ''Q2''"
        "st0\<lparr>correct_answers := correct_answers st0 + 1\<rparr>"]
    by (simp_all add: st0_def load_asked_questions_def load_wrong_questions_def initial_state_def)
  note t1 = record_answer_keeps_disjoint [OF sync disj dist f1 refl]
  note t2 = record_answer_keeps_disjoint [OF sync disj dist f2 refl]
  have c4: "set (load_asked_questions (record_answer (sample_question ''Q3'') False st0))
       \<inter> set (load_wrong_questions (record_answer (sample_question ''Q3'') False st0)) = {}"
    using t2 by blast
  have c5: "sample_question ''Q3''
       \<in> set (load_wrong_questions (record_answer (sample_question ''Q3'') False st0))"
    using t2 by blast
  have c0: "sample_question ''Q2''
       \<in> set (load_asked_questions (record_answer (sample_question ''Q2'') True st0))"
    using t1 by blast
  from sync r1 r2 c4 c5 have
    "question_memory st0 = load_asked_questions st0
     \<and> load_asked_questions (record_answer (sample_question ''Q2'') True st0)
         = [sample_question ''Q1'', sample_question ''Q2'']
     \<and> load_wrong_questions (record_answer (sample_question ''Q2'') True st0) = []
     \<and> set (load_asked_questions (record_answer (sample_question ''Q3'') False st0))
         \<inter> set (load_wrong_questions (record_answer (sample_question ''Q3'') False st0)) = {}
     \<and> sample_question ''Q3''
         \<in> set (load_wrong_questions (record_answer (sample_question ''Q3'') False st0))"
    by blast
  then show ?thesis unfolding st0_def .
qed

end
